theory Spec2Isabelle
  imports Main
begin

section \<open>Record types, values and errors\<close>

text \<open>
  The package converts between rows of text cells and Go structs whose fields carry
  struct tags. The embedding describes a struct type by the list of its fields
  (what \<^verbatim>\<open>reflect.Type.Field(i)\<close> returns for i = 0, 1, ...), a struct value by the
  list of its field values in the same order, and Go's error values by a datatype.

  Field types: \<open>TInt n\<close> and \<open>TUint n\<close> are the signed and unsigned integer types of
  n bits (\<^verbatim>\<open>int\<close> and \<^verbatim>\<open>uint\<close> are the 64 bit ones), \<open>TFloat n\<close> the floating point types,
  \<open>TTime\<close> is \<^verbatim>\<open>time.Time\<close>, \<open>TNamed name u\<close> a defined type
  (\<^verbatim>\<open>type name u\<close>). Texts are ASCII: one \<open>char\<close> is one byte and one rune.
\<close>

datatype gotype =
    TBool
  | TInt nat
  | TUint nat
  | TFloat nat
  | TString
  | TTime
  | TNamed string gotype
  | TPtr gotype
  | TSlice gotype
  | TMap gotype gotype

text \<open>A time is an instant with the name of its location; a location is known by its name.\<close>

datatype gotime = Time int string

type_synonym location = string

text \<open>
  Values. \<open>VInt\<close> holds the value of any integer kind, \<open>VFloat\<close> the bit pattern of a
  floating point number (its arithmetic is not modelled), \<open>VNil\<close> is the nil pointer,
  the nil slice and the nil map, \<open>VPtr v\<close> a pointer to a variable holding v,
  \<open>VSlice\<close> a slice that is not nil.
\<close>

datatype goval =
    VBool bool
  | VInt int
  | VFloat int
  | VString string
  | VTime gotime
  | VNil
  | VPtr goval
  | VSlice "goval list"
  | VMap "(goval \<times> goval) list"

text \<open>
  Errors: the package's own (\<^verbatim>\<open>ErrHeaderNotRead\<close>, \<^verbatim>\<open>FieldParseError\<close>,
  \<^verbatim>\<open>FieldFormatError\<close>), \<^verbatim>\<open>io.EOF\<close>, the errors that \<^verbatim>\<open>fmt\<close>'s scanner makes with
  \<^verbatim>\<open>errors.New\<close>, the syntax and range errors of \<^verbatim>\<open>strconv\<close>, and any other error of a
  collaborator (tokenizer, sink, time library, text hooks), known by its message.
\<close>

datatype goerror =
    ErrHeaderNotRead
  | EOF
  | FieldParseError string goerror
  | FieldFormatError string goerror
  | ScanError string
  | ErrSyntax string
  | ErrRange string
  | OtherError string

text \<open>A call either returns or panics (an index out of range in \<^verbatim>\<open>values[index]\<close>).\<close>

datatype 'a outcome = Panics | Returns 'a

text \<open>\<^verbatim>\<open>reflect.StructField\<close>: \<open>PkgPath\<close> is empty exactly for exported fields; the tag is
  the list of its key/value pairs, the first pair of a key being the one that counts.\<close>

record field =
  Name :: string
  PkgPath :: string
  Type :: gotype
  Tag :: "(string \<times> string) list"

type_synonym struct = "field list"

definition Tag_Lookup :: "field \<Rightarrow> string \<Rightarrow> string option" where
  "Tag_Lookup f key = map_of (Tag f) key"

definition Tag_Get :: "field \<Rightarrow> string \<Rightarrow> string" where
  "Tag_Get f key = (case Tag_Lookup f key of None \<Rightarrow> [] | Some v \<Rightarrow> v)"

definition IsExported :: "field \<Rightarrow> bool" where
  "IsExported f = (PkgPath f = [])"

definition csvTag :: string where "csvTag = ''csv''"
definition nullTag :: string where "nullTag = ''null''"
definition formatTag :: string where "formatTag = ''format''"
definition timeFormatTag :: string where "timeFormatTag = ''time_format''"
definition timeLocationTag :: string where "timeLocationTag = ''time_location''"
definition separatorTag :: string where "separatorTag = ''separator''"

definition isValidCSVField :: "field \<Rightarrow> bool" where
  "isValidCSVField f = (IsExported f \<and> Tag_Get f csvTag \<noteq> [])"

subsection \<open>Reflection on types\<close>

fun underlying :: "gotype \<Rightarrow> gotype" where
  "underlying (TNamed n u) = underlying u"
| "underlying t = t"

definition isPtr :: "gotype \<Rightarrow> bool" where
  "isPtr t = (case underlying t of TPtr e \<Rightarrow> True | _ \<Rightarrow> False)"

definition isSlice :: "gotype \<Rightarrow> bool" where
  "isSlice t = (case underlying t of TSlice e \<Rightarrow> True | _ \<Rightarrow> False)"

definition Elem :: "gotype \<Rightarrow> gotype" where
  "Elem t = (case underlying t of TPtr e \<Rightarrow> e | TSlice e \<Rightarrow> e | _ \<Rightarrow> t)"

text \<open>\<^verbatim>\<open>ConvertibleTo(timeType)\<close>: the underlying type is that of \<^verbatim>\<open>time.Time\<close>.\<close>

definition ConvertibleToTime :: "gotype \<Rightarrow> bool" where
  "ConvertibleToTime t = (underlying t = TTime)"

definition zero_time :: gotime where
  "zero_time = Time 0 ''UTC''"

fun Zero :: "gotype \<Rightarrow> goval" where
  "Zero TBool = VBool False"
| "Zero (TInt n) = VInt 0"
| "Zero (TUint n) = VInt 0"
| "Zero (TFloat n) = VFloat 0"
| "Zero TString = VString []"
| "Zero TTime = VTime zero_time"
| "Zero (TNamed n u) = Zero u"
| "Zero (TPtr e) = VNil"
| "Zero (TSlice e) = VNil"
| "Zero (TMap k v) = VNil"

text \<open>\<^verbatim>\<open>new(T)\<close>: every field at the zero value of its type.\<close>

definition new :: "struct \<Rightarrow> goval list" where
  "new T = map (\<lambda>f. Zero (Type f)) T"


section \<open>The collaborators\<close>

text \<open>
  What the package calls and does not define is a parameter of the embedding: the time
  library (\<^verbatim>\<open>time.LoadLocation\<close>, \<^verbatim>\<open>time.ParseInLocation\<close>, \<^verbatim>\<open>time.Parse\<close>,
  \<^verbatim>\<open>Time.In\<close>, \<^verbatim>\<open>Time.Format\<close>), the text hooks of the field types
  (\<open>UnmarshalText t\<close> is the method of \<^verbatim>\<open>*t\<close> when \<^verbatim>\<open>*t\<close> implements
  \<^verbatim>\<open>encoding.TextUnmarshaler\<close>, called on a fresh zero variable and giving what the
  variable holds afterwards and the error; \<open>MarshalText t\<close> the method of t when t
  implements \<^verbatim>\<open>encoding.TextMarshaler\<close>), the conversion of a floating point token,
  and \<^verbatim>\<open>fmt.Sprintf\<close> where it is not the plain \<^verbatim>\<open>%v\<close> of a bool, an integer or a
  string. Field types are taken to have no other methods that \<^verbatim>\<open>fmt\<close> would call
  (\<^verbatim>\<open>Scan\<close>, \<^verbatim>\<open>Format\<close>, \<^verbatim>\<open>String\<close>, \<^verbatim>\<open>Error\<close>).
\<close>

record env =
  time_LoadLocation :: "string \<Rightarrow> goerror + location"
  time_ParseInLocation :: "string \<Rightarrow> string \<Rightarrow> location \<Rightarrow> goerror + gotime"
  time_Parse :: "string \<Rightarrow> string \<Rightarrow> goerror + gotime"
  time_In :: "gotime \<Rightarrow> location \<Rightarrow> gotime"
  time_Format :: "gotime \<Rightarrow> string \<Rightarrow> string"
  UnmarshalText :: "gotype \<Rightarrow> (string \<Rightarrow> goval \<times> goerror option) option"
  MarshalText :: "gotype \<Rightarrow> (goval \<Rightarrow> goerror + string) option"
  strconv_ParseFloat :: "string \<Rightarrow> nat \<Rightarrow> goerror + int"
  fmt_Sprintf :: "string \<Rightarrow> goval \<Rightarrow> string"

subsection \<open>The row tokenizer and the row sink\<close>

text \<open>
  The \<^verbatim>\<open>csv.Reader\<close> is the list of what its successive \<^verbatim>\<open>Read\<close> calls return, a row
  or an error; once the list is used up, \<^verbatim>\<open>Read\<close> returns \<^verbatim>\<open>io.EOF\<close>.
\<close>

type_synonym csv_Reader = "(goerror + string list) list"

fun csv_Read :: "csv_Reader \<Rightarrow> (goerror + string list) \<times> csv_Reader" where
  "csv_Read [] = (Inl EOF, [])"
| "csv_Read (x # rest) = (x, rest)"

text \<open>
  The \<^verbatim>\<open>csv.Writer\<close> is the list of the rows handed to its \<^verbatim>\<open>Write\<close> so far and the
  list of what its coming \<^verbatim>\<open>Write\<close> calls return (no error once that list is used up).
\<close>

record csv_Writer =
  Rows :: "string list list"
  Faults :: "goerror option list"

definition csv_Write :: "csv_Writer \<Rightarrow> string list \<Rightarrow> csv_Writer \<times> goerror option" where
  "csv_Write w row =
     (case Faults w of
        [] \<Rightarrow> (w\<lparr>Rows := Rows w @ [row]\<rparr>, None)
      | e # es \<Rightarrow> (w\<lparr>Rows := Rows w @ [row], Faults := es\<rparr>, e))"

section \<open>Scanning a cell: \<^verbatim>\<open>fmt.Sscanf(value, "%v", ptr)\<close>\<close>

text \<open>The scanner's state: the token buffer and the input not yet read.\<close>

type_synonym ss = "string \<times> string"

definition isSpace :: "char \<Rightarrow> bool" where
  "isSpace r = (r \<in> set [CHR 0x09, CHR 0x0A, CHR 0x0B, CHR 0x0C, CHR 0x0D, CHR 0x20])"

text \<open>\<^verbatim>\<open>SkipSpace\<close> of a scan in which a newline is not a space (\<^verbatim>\<open>Sscanf\<close>).\<close>

fun SkipSpace :: "string \<Rightarrow> goerror + string" where
  "SkipSpace [] = Inr []"
| "SkipSpace (r # rs) =
     (if r = CHR 0x0A then Inl (ScanError ''unexpected newline'')
      else if isSpace r then SkipSpace rs
      else Inr (r # rs))"

definition peek :: "string \<Rightarrow> ss \<Rightarrow> bool" where
  "peek ok s = (case snd s of [] \<Rightarrow> False | r # rs \<Rightarrow> r \<in> set ok)"

definition accept :: "string \<Rightarrow> ss \<Rightarrow> bool \<times> ss" where
  "accept ok s =
     (case snd s of
        [] \<Rightarrow> (False, s)
      | r # rs \<Rightarrow> if r \<in> set ok then (True, (fst s @ [r], rs)) else (False, s))"

text \<open>\<^verbatim>\<open>for s.accept(ok) { }\<close>\<close>

definition acceptAll :: "string \<Rightarrow> ss \<Rightarrow> ss" where
  "acceptAll ok s =
     (fst s @ takeWhile (\<lambda>r. r \<in> set ok) (snd s), dropWhile (\<lambda>r. r \<in> set ok) (snd s))"

definition sign :: string where "sign = ''+-''"
definition binaryDigits :: string where "binaryDigits = ''01''"
definition octalDigits :: string where "octalDigits = ''01234567''"
definition decimalDigits :: string where "decimalDigits = ''0123456789''"
definition hexadecimalDigits :: string where "hexadecimalDigits = ''0123456789aAbBcCdDeEfF''"
definition period :: string where "period = ''.''"
definition exponent :: string where "exponent = ''eEpP''"

text \<open>\<^verbatim>\<open>convertString\<close> for the verb v: the next word.\<close>

definition convertString :: "string \<Rightarrow> goerror + string" where
  "convertString input =
     (case SkipSpace input of
        Inl e \<Rightarrow> Inl e
      | Inr rest \<Rightarrow>
          if rest = [] then Inl EOF
          else (case SkipSpace rest of
                  Inl e \<Rightarrow> Inl e
                | Inr rest' \<Rightarrow> Inr (takeWhile (\<lambda>r. \<not> isSpace r) rest')))"

definition boolError :: goerror where
  "boolError = ScanError ''syntax error scanning boolean''"

definition scanBool :: "string \<Rightarrow> goerror + bool" where
  "scanBool input =
     (case SkipSpace input of
        Inl e \<Rightarrow> Inl e
      | Inr rest \<Rightarrow>
         (case rest of
            [] \<Rightarrow> Inl EOF
          | r # rs \<Rightarrow>
              if r = CHR ''0'' then Inr False
              else if r = CHR ''1'' then Inr True
              else if r = CHR ''t'' \<or> r = CHR ''T'' then
                (case accept ''rR'' ([], rs) of
                   (False, s1) \<Rightarrow> Inr True
                 | (True, s1) \<Rightarrow>
                    (case accept ''uU'' s1 of
                       (False, s2) \<Rightarrow> Inl boolError
                     | (True, s2) \<Rightarrow>
                        (case accept ''eE'' s2 of
                           (False, s3) \<Rightarrow> Inl boolError
                         | (True, s3) \<Rightarrow> Inr True)))
              else if r = CHR ''f'' \<or> r = CHR ''F'' then
                (case accept ''aA'' ([], rs) of
                   (False, s1) \<Rightarrow> Inr False
                 | (True, s1) \<Rightarrow>
                    (case accept ''lL'' s1 of
                       (False, s2) \<Rightarrow> Inl boolError
                     | (True, s2) \<Rightarrow>
                        (case accept ''sS'' s2 of
                           (False, s3) \<Rightarrow> Inl boolError
                         | (True, s3) \<Rightarrow>
                            (case accept ''eE'' s3 of
                               (False, s4) \<Rightarrow> Inl boolError
                             | (True, s4) \<Rightarrow> Inr False))))
              else Inr False))"


subsection \<open>Integers: \<^verbatim>\<open>strconv.ParseUint\<close> and \<^verbatim>\<open>strconv.ParseInt\<close> with base 0 and 64 bits\<close>

fun index_of :: "'a \<Rightarrow> 'a list \<Rightarrow> nat option" where
  "index_of x [] = None"
| "index_of x (y # ys) = (if x = y then Some 0 else map_option Suc (index_of x ys))"

text \<open>The value of a digit: 0 to 9, then the letters of either case from 10 on.\<close>

definition digitVal :: "char \<Rightarrow> nat option" where
  "digitVal c =
     (case index_of c ''0123456789'' of
        Some d \<Rightarrow> Some d
      | None \<Rightarrow>
         (case index_of c ''abcdefghijklmnopqrstuvwxyz'' of
            Some d \<Rightarrow> Some (d + 10)
          | None \<Rightarrow> map_option (\<lambda>d. d + 10) (index_of c ''ABCDEFGHIJKLMNOPQRSTUVWXYZ'')))"

definition maxUint64 :: nat where
  "maxUint64 = 2 ^ 64 - 1"

text \<open>
  The digit loop of \<^verbatim>\<open>ParseUint\<close>; its two overflow tests (n at or above the cutoff,
  n * base + d wrapped or above the maximum) say together that n * base + d is more
  than the maximum.
\<close>

fun parseDigits :: "nat \<Rightarrow> string \<Rightarrow> string \<Rightarrow> nat \<Rightarrow> goerror + nat" where
  "parseDigits base s0 [] n = Inr n"
| "parseDigits base s0 (c # cs) n =
     (if c = CHR ''_'' then parseDigits base s0 cs n
      else (case digitVal c of
              None \<Rightarrow> Inl (ErrSyntax s0)
            | Some d \<Rightarrow>
                if d \<ge> base then Inl (ErrSyntax s0)
                else if n * base + d > maxUint64 then Inl (ErrRange s0)
                else parseDigits base s0 cs (n * base + d)))"

fun underscoreScan :: "bool \<Rightarrow> char \<Rightarrow> string \<Rightarrow> bool" where
  "underscoreScan hex saw [] = (saw \<noteq> CHR ''_'')"
| "underscoreScan hex saw (c # cs) =
     (if c \<in> set ''0123456789'' \<or> (hex \<and> c \<in> set ''abcdefABCDEF'') then
        underscoreScan hex (CHR ''0'') cs
      else if c = CHR ''_'' then
        (if saw \<noteq> CHR ''0'' then False else underscoreScan hex (CHR ''_'') cs)
      else if saw = CHR ''_'' then False
      else underscoreScan hex (CHR ''!'') cs)"

definition underscoreOK :: "string \<Rightarrow> bool" where
  "underscoreOK s0 =
     (let s = (if s0 \<noteq> [] \<and> (hd s0 = CHR ''-'' \<or> hd s0 = CHR ''+'') then tl s0 else s0)
      in if length s \<ge> 2 \<and> hd s = CHR ''0'' \<and> s ! 1 \<in> set ''bBoOxX''
         then underscoreScan (s ! 1 \<in> set ''xX'') (CHR ''0'') (drop 2 s)
         else underscoreScan False (CHR ''^'') s)"

definition ParseUint :: "string \<Rightarrow> goerror + nat" where
  "ParseUint s =
     (if s = [] then Inl (ErrSyntax s)
      else
        let (base, digs) =
              (if hd s = CHR ''0'' then
                 (if length s \<ge> 3 \<and> s ! 1 \<in> set ''bB'' then (2, drop 2 s)
                  else if length s \<ge> 3 \<and> s ! 1 \<in> set ''oO'' then (8, drop 2 s)
                  else if length s \<ge> 3 \<and> s ! 1 \<in> set ''xX'' then (16, drop 2 s)
                  else (8, drop 1 s))
               else (10, s))
        in (case parseDigits base s digs 0 of
              Inl e \<Rightarrow> Inl e
            | Inr n \<Rightarrow>
                if CHR ''_'' \<in> set digs \<and> \<not> underscoreOK s then Inl (ErrSyntax s)
                else Inr n))"

definition ParseInt :: "string \<Rightarrow> goerror + int" where
  "ParseInt s0 =
     (if s0 = [] then Inl (ErrSyntax s0)
      else
        let neg = (hd s0 = CHR ''-'');
            s = (if hd s0 = CHR ''+'' \<or> hd s0 = CHR ''-'' then tl s0 else s0)
        in (case ParseUint s of
              Inl (ErrRange x) \<Rightarrow> Inl (ErrRange s0)
            | Inl e \<Rightarrow> Inl (ErrSyntax s0)
            | Inr un \<Rightarrow>
                if \<not> neg \<and> un \<ge> 2 ^ 63 then Inl (ErrRange s0)
                else if neg \<and> un > 2 ^ 63 then Inl (ErrRange s0)
                else Inr (if neg then - int un else int un)))"

subsection \<open>The scanner's integers, floats and the verb v\<close>

definition scanBasePrefix :: "ss \<Rightarrow> string \<times> bool \<times> ss" where
  "scanBasePrefix s =
     (if \<not> peek ''0'' s then (decimalDigits @ ''_'', False, s)
      else
        let s1 = snd (accept ''0'' s)
        in if peek ''bB'' s1 then (binaryDigits @ ''_'', True, snd (accept ''bB'' s1))
           else if peek ''oO'' s1 then (octalDigits @ ''_'', True, snd (accept ''oO'' s1))
           else if peek ''xX'' s1 then (hexadecimalDigits @ ''_'', True, snd (accept ''xX'' s1))
           else (octalDigits @ ''_'', True, s1))"

definition scanNumber :: "string \<Rightarrow> bool \<Rightarrow> ss \<Rightarrow> goerror + string" where
  "scanNumber digits haveDigits s =
     (if \<not> haveDigits then
        (if snd s = [] then Inl EOF
         else (case accept digits s of
                 (False, s1) \<Rightarrow> Inl (ScanError ''expected integer'')
               | (True, s1) \<Rightarrow> Inr (fst (acceptAll digits s1))))
      else Inr (fst (acceptAll digits s)))"

definition scanInt :: "nat \<Rightarrow> string \<Rightarrow> goerror + int" where
  "scanInt bitSize input =
     (case SkipSpace input of
        Inl e \<Rightarrow> Inl e
      | Inr rest \<Rightarrow>
          if rest = [] then Inl EOF
          else
            let s1 = snd (accept sign ([], rest));
                (digits, haveDigits, s2) = scanBasePrefix s1
            in (case scanNumber digits haveDigits s2 of
                  Inl e \<Rightarrow> Inl e
                | Inr tok \<Rightarrow>
                   (case ParseInt tok of
                      Inl e \<Rightarrow> Inl e
                    | Inr i \<Rightarrow>
                        if - (2 ^ (bitSize - 1)) \<le> i \<and> i < 2 ^ (bitSize - 1) then Inr i
                        else Inl (ScanError (''integer overflow on token '' @ tok)))))"

definition scanUint :: "nat \<Rightarrow> string \<Rightarrow> goerror + nat" where
  "scanUint bitSize input =
     (case SkipSpace input of
        Inl e \<Rightarrow> Inl e
      | Inr rest \<Rightarrow>
          if rest = [] then Inl EOF
          else
            let (digits, haveDigits, s2) = scanBasePrefix ([], rest)
            in (case scanNumber digits haveDigits s2 of
                  Inl e \<Rightarrow> Inl e
                | Inr tok \<Rightarrow>
                   (case ParseUint tok of
                      Inl e \<Rightarrow> Inl e
                    | Inr i \<Rightarrow>
                        if i < 2 ^ bitSize then Inr i
                        else Inl (ScanError (''unsigned integer overflow on token '' @ tok)))))"

text \<open>\<^verbatim>\<open>a && b && c\<close> over \<^verbatim>\<open>accept\<close>: what was accepted stays accepted.\<close>

fun acceptSeq :: "string list \<Rightarrow> ss \<Rightarrow> bool \<times> ss" where
  "acceptSeq [] s = (True, s)"
| "acceptSeq (ok # oks) s =
     (case accept ok s of
        (True, s1) \<Rightarrow> acceptSeq oks s1
      | (False, s1) \<Rightarrow> (False, s1))"

definition floatToken :: "string \<Rightarrow> string" where
  "floatToken input =
     (case acceptSeq [''nN'', ''aA'', ''nN''] ([], input) of
        (True, s1) \<Rightarrow> fst s1
      | (False, s1) \<Rightarrow>
         (case acceptSeq [''iI'', ''nN'', ''fF''] (snd (accept sign s1)) of
            (True, s2) \<Rightarrow> fst s2
          | (False, s2) \<Rightarrow>
             (case acceptSeq [''0'', ''xX''] s2 of (hex, s3) \<Rightarrow>
                let digits = (if hex then hexadecimalDigits else decimalDigits) @ ''_'';
                    exp = (if hex then ''pP'' else exponent);
                    s4 = acceptAll digits s3;
                    s5 = (case accept period s4 of
                            (True, s) \<Rightarrow> acceptAll digits s
                          | (False, s) \<Rightarrow> s)
                in (case accept exp s5 of
                      (True, s6) \<Rightarrow> fst (acceptAll (decimalDigits @ ''_'') (snd (accept sign s6)))
                    | (False, s6) \<Rightarrow> fst s6))))"


text \<open>
  A floating point cell: the token is scanned as the scanner does; its conversion is the
  collaborator's, but for the empty token, which \<^verbatim>\<open>strconv.ParseFloat\<close> rejects.
\<close>

definition scanFloat :: "env \<Rightarrow> nat \<Rightarrow> string \<Rightarrow> goerror + int" where
  "scanFloat env bitSize input =
     (case SkipSpace input of
        Inl e \<Rightarrow> Inl e
      | Inr rest \<Rightarrow>
          if rest = [] then Inl EOF
          else
            let tok = floatToken rest
            in if tok = [] then Inl (ErrSyntax tok) else strconv_ParseFloat env tok bitSize)"

text \<open>The error for a kind that cannot be scanned; its message ends with the name of
  the type, which is left out here.\<close>

definition cantScan :: goerror where
  "cantScan = ScanError (''can'' @ [CHR 0x27] @ ''t scan type'')"

text \<open>\<^verbatim>\<open>scanOne\<close> for the verb v, by the kind of the variable the pointer points to.\<close>

definition scanOne :: "env \<Rightarrow> gotype \<Rightarrow> string \<Rightarrow> goerror + goval" where
  "scanOne env t input =
     (case underlying t of
        TBool \<Rightarrow> map_sum id VBool (scanBool input)
      | TInt n \<Rightarrow> map_sum id VInt (scanInt n input)
      | TUint n \<Rightarrow> map_sum id (\<lambda>u. VInt (int u)) (scanUint n input)
      | TString \<Rightarrow> map_sum id VString (convertString input)
      | TSlice e \<Rightarrow>
          if underlying e = TUint 8 then
            map_sum id (\<lambda>str. VSlice (map (\<lambda>c. VInt (int (of_char c))) str)) (convertString input)
          else Inl cantScan
      | TFloat n \<Rightarrow> map_sum id VFloat (scanFloat env n input)
      | _ \<Rightarrow> Inl cantScan)"

text \<open>\<^verbatim>\<open>fmt.Sscanf(input, "%v", p)\<close> for a pointer p to a variable of type t: the error, or
  the value stored.\<close>

definition Sscanf :: "env \<Rightarrow> gotype \<Rightarrow> string \<Rightarrow> goerror + goval" where
  "Sscanf env t input =
     (case SkipSpace input of
        Inl e \<Rightarrow> Inl e
      | Inr rest \<Rightarrow> scanOne env t rest)"

section \<open>Formatting a value: \<^verbatim>\<open>fmt.Sprintf\<close>\<close>

definition digitChar :: "nat \<Rightarrow> char" where
  "digitChar d = ''0123456789'' ! d"

fun FormatUint :: "nat \<Rightarrow> string" where
  "FormatUint n = (if n < 10 then [digitChar n] else FormatUint (n div 10) @ [digitChar (n mod 10)])"

declare FormatUint.simps [simp del]

definition FormatInt :: "int \<Rightarrow> string" where
  "FormatInt i = (if i < 0 then CHR ''-'' # FormatUint (nat (- i)) else FormatUint (nat i))"

definition Sprintf :: "env \<Rightarrow> string \<Rightarrow> goval \<Rightarrow> string" where
  "Sprintf env format v =
     (if format = ''%v'' then
        (case v of
           VBool b \<Rightarrow> (if b then ''true'' else ''false'')
         | VInt i \<Rightarrow> FormatInt i
         | VString str \<Rightarrow> str
         | _ \<Rightarrow> fmt_Sprintf env format v)
      else fmt_Sprintf env format v)"

section \<open>\<^verbatim>\<open>strings.Split\<close> and the joining loop\<close>

function splitOn :: "string \<Rightarrow> string \<Rightarrow> string \<Rightarrow> string list" where
  "splitOn sep cur [] = [cur]"
| "splitOn sep cur (c # cs) =
     (if sep \<noteq> [] \<and> take (length sep) (c # cs) = sep
      then cur # splitOn sep [] (drop (length sep) (c # cs))
      else splitOn sep (cur @ [c]) cs)"
  by pat_completeness auto
termination
  by (relation "measure (\<lambda>(sep, cur, s). length s)") auto

definition strings_Split :: "string \<Rightarrow> string \<Rightarrow> string list" where
  "strings_Split s sep = (if sep = [] then map (\<lambda>c. [c]) s else splitOn sep [] s)"

fun joinItems :: "string \<Rightarrow> string list \<Rightarrow> string" where
  "joinItems separator [] = []"
| "joinItems separator [x] = x"
| "joinItems separator (x # y # ys) = x @ separator @ joinItems separator (y # ys)"


section \<open>The reader\<close>

text \<open>\<^verbatim>\<open>TypedCSVReader\<close>: the tokenizer and the header index, \<open>None\<close> while the map is nil.\<close>

record TypedCSVReader =
  Reader :: csv_Reader
  Header :: "(string \<rightharpoonup> nat) option"

definition NewReader :: "csv_Reader \<Rightarrow> TypedCSVReader" where
  "NewReader reader = \<lparr>Reader = reader, Header = None\<rparr>"

text \<open>The loop \<^verbatim>\<open>for i, field := range header { r.Header[field] = i }\<close> from index i on.\<close>

fun mapHeader :: "string list \<Rightarrow> nat \<Rightarrow> (string \<rightharpoonup> nat) \<Rightarrow> (string \<rightharpoonup> nat)" where
  "mapHeader [] i m = m"
| "mapHeader (field # header) i m = mapHeader header (Suc i) (m(field \<mapsto> i))"

definition ReadHeader :: "TypedCSVReader \<Rightarrow> TypedCSVReader \<times> goerror option" where
  "ReadHeader r =
     (case csv_Read (Reader r) of
        (Inl err, rest) \<Rightarrow> (r\<lparr>Reader := rest\<rparr>, Some err)
      | (Inr header, rest) \<Rightarrow>
          (r\<lparr>Reader := rest, Header := Some (mapHeader header 0 Map.empty)\<rparr>, None))"

text \<open>The loop over the pieces of a slice cell, from the piece of index \<open>itemIndex\<close> on.\<close>

fun scanItems :: "env \<Rightarrow> gotype \<Rightarrow> string \<Rightarrow> nat \<Rightarrow> string list \<Rightarrow> goerror + goval list" where
  "scanItems env elemType csvTagValue itemIndex [] = Inr []"
| "scanItems env elemType csvTagValue itemIndex (item # items) =
     (case Sscanf env elemType item of
        Inl err \<Rightarrow>
          Inl (FieldParseError (csvTagValue @ ''['' @ FormatUint itemIndex @ '']'') err)
      | Inr itemValue \<Rightarrow>
         (case scanItems env elemType csvTagValue (Suc itemIndex) items of
            Inl e \<Rightarrow> Inl e
          | Inr slice \<Rightarrow> Inr (itemValue # slice)))"

text \<open>
  The body of the loop of \<^verbatim>\<open>ReadRecord\<close> for one field whose column is in the header,
  from \<^verbatim>\<open>value := values[index]\<close> on: what the field holds afterwards, and the error
  with which \<^verbatim>\<open>ReadRecord\<close> returns, if any. The kind of the field is taken before a
  pointer is followed, as in the source, so a pointer to a slice is not split.
\<close>

definition ReadField :: "env \<Rightarrow> field \<Rightarrow> string \<Rightarrow> goval \<times> goerror option" where
  "ReadField env field value =
     (let csvTagValue = Tag_Get field csvTag;
          kindPtr = isPtr (Type field);
          kindSlice = isSlice (Type field)
      in
      if kindPtr \<and> Tag_Lookup field nullTag = Some value then (VNil, None)
      else
        let fieldType = (if kindPtr then Elem (Type field) else Type field);
            store = (\<lambda>v. if kindPtr then VPtr v else v);
            timeFormat = Tag_Get field timeFormatTag;
            timeLocation = Tag_Get field timeLocationTag
        in
        if ConvertibleToTime fieldType \<and> timeFormat \<noteq> [] then
          (if timeLocation \<noteq> [] then
             (case time_LoadLocation env timeLocation of
                Inl err \<Rightarrow> (store (Zero fieldType), Some (FieldParseError csvTagValue err))
              | Inr location \<Rightarrow>
                 (case time_ParseInLocation env timeFormat value location of
                    Inl err \<Rightarrow> (store (Zero fieldType), Some (FieldParseError csvTagValue err))
                  | Inr timeValue \<Rightarrow> (store (VTime timeValue), None)))
           else
             (case time_Parse env timeFormat value of
                Inl err \<Rightarrow> (store (Zero fieldType), Some (FieldParseError csvTagValue err))
              | Inr timeValue \<Rightarrow> (store (VTime timeValue), None)))
        else
          (case UnmarshalText env fieldType of
             Some hook \<Rightarrow>
               (case hook value of
                  (v, Some err) \<Rightarrow> (store v, Some (FieldParseError csvTagValue err))
                | (v, None) \<Rightarrow> (store v, None))
           | None \<Rightarrow>
               if kindSlice then
                 (case scanItems env (Elem fieldType) csvTagValue 0
                         (strings_Split value (Tag_Get field separatorTag)) of
                    Inl err \<Rightarrow> (Zero fieldType, Some err)
                  | Inr slice \<Rightarrow> (VSlice slice, None))
               else
                 (case Sscanf env fieldType value of
                    Inl err \<Rightarrow>
                      if err = EOF then (store (Zero fieldType), None)
                      else (store (Zero fieldType), Some (FieldParseError csvTagValue err))
                  | Inr v \<Rightarrow> (store v, None))))"

text \<open>
  The loop of \<^verbatim>\<open>ReadRecord\<close> over the fields not yet visited: the values of these fields
  in the record when the call returns, and its error. A field that is not visited, or
  is skipped, holds the zero value that \<^verbatim>\<open>new(T)\<close> gave it.
\<close>

fun ReadFields ::
  "env \<Rightarrow> (string \<rightharpoonup> nat) \<Rightarrow> string list \<Rightarrow> field list \<Rightarrow> (goval list \<times> goerror option) outcome"
where
  "ReadFields env header values [] = Returns ([], None)"
| "ReadFields env header values (field # later) =
     (if \<not> isValidCSVField field then
        (case ReadFields env header values later of
           Panics \<Rightarrow> Panics
         | Returns (vs, err) \<Rightarrow> Returns (Zero (Type field) # vs, err))
      else
        (case header (Tag_Get field csvTag) of
           None \<Rightarrow>
             (case ReadFields env header values later of
                Panics \<Rightarrow> Panics
              | Returns (vs, err) \<Rightarrow> Returns (Zero (Type field) # vs, err))
         | Some index \<Rightarrow>
             if index \<ge> length values then Panics
             else
               (case ReadField env field (values ! index) of
                  (v, Some err) \<Rightarrow> Returns (v # new later, Some err)
                | (v, None) \<Rightarrow>
                   (case ReadFields env header values later of
                      Panics \<Rightarrow> Panics
                    | Returns (vs, err) \<Rightarrow> Returns (v # vs, err)))))"

text \<open>\<^verbatim>\<open>ReadRecord\<close> returns the pointer to the record (\<open>None\<close> is nil) and the error.\<close>

definition ReadRecord ::
  "env \<Rightarrow> struct \<Rightarrow> TypedCSVReader \<Rightarrow> TypedCSVReader \<times> (goval list option \<times> goerror option) outcome"
where
  "ReadRecord env T r =
     (case Header r of
        None \<Rightarrow> (r, Returns (None, Some ErrHeaderNotRead))
      | Some header \<Rightarrow>
         (case csv_Read (Reader r) of
            (Inl err, rest) \<Rightarrow> (r\<lparr>Reader := rest\<rparr>, Returns (None, Some err))
          | (Inr values, rest) \<Rightarrow>
              (r\<lparr>Reader := rest\<rparr>,
               case ReadFields env header values T of
                 Panics \<Rightarrow> Panics
               | Returns (vs, err) \<Rightarrow> Returns (Some vs, err))))"


text \<open>A call of \<^verbatim>\<open>ReadRecord\<close> that returns no error has taken a row from the tokenizer.\<close>

lemma ReadRecord_consumes:
  assumes "ReadRecord env T r = (r', Returns (record, None))"
  shows "length (Reader r') < length (Reader r)"
proof (cases "Header r")
  case None
  with assms show ?thesis by (simp add: ReadRecord_def)
next
  case (Some header)
  show ?thesis
  proof (cases "Reader r")
    case Nil
    with Some assms show ?thesis by (simp add: ReadRecord_def)
  next
    case (Cons x rest)
    with Some assms show ?thesis
      by (cases x) (auto simp: ReadRecord_def split: outcome.splits)
  qed
qed

text \<open>
  The loop of \<^verbatim>\<open>ReadAll\<close>, with the records collected so far: each element is the
  pointer that \<^verbatim>\<open>ReadRecord\<close> returned.
\<close>

function ReadAll_loop ::
  "env \<Rightarrow> struct \<Rightarrow> TypedCSVReader \<Rightarrow> goval list option list
    \<Rightarrow> TypedCSVReader \<times> (goval list option list \<times> goerror option) outcome"
where
  "ReadAll_loop env T r records =
     (case ReadRecord env T r of
        (r', Panics) \<Rightarrow> (r', Panics)
      | (r', Returns (record, err)) \<Rightarrow>
          if err = Some EOF then (r', Returns (records, None))
          else if err \<noteq> None then (r', Returns (records, err))
          else ReadAll_loop env T r' (records @ [record]))"
  by pat_completeness auto
termination
proof (relation "measure (\<lambda>(env, T, r, records). length (Reader r))")
  show "wf (measure (\<lambda>(env, T, r, records). length (Reader r)))"
    by simp
next
  fix env :: env and T :: struct and r r' :: TypedCSVReader
    and records :: "goval list option list"
    and x x2 p err
  assume "(r', x) = ReadRecord env T r" "x = Returns x2" "(p, err) = x2"
    "err \<noteq> Some EOF" "\<not> err \<noteq> None"
  then have "ReadRecord env T r = (r', Returns (p, None))"
    by simp
  then show "((env, T, r', records @ [p]), (env, T, r, records))
      \<in> measure (\<lambda>(env, T, r, records). length (Reader r))"
    by (simp add: ReadRecord_consumes)
qed

declare ReadAll_loop.simps [simp del]

definition ReadAll ::
  "env \<Rightarrow> struct \<Rightarrow> TypedCSVReader
    \<Rightarrow> TypedCSVReader \<times> (goval list option list \<times> goerror option) outcome"
where
  "ReadAll env T r = ReadAll_loop env T r []"


section \<open>The writer\<close>

record TypedCSVWriter =
  Writer :: csv_Writer

text \<open>\<^verbatim>\<open>WriteHeader\<close> takes no record: the row is made from the type alone.\<close>

definition WriteHeader :: "struct \<Rightarrow> TypedCSVWriter \<Rightarrow> TypedCSVWriter \<times> goerror option" where
  "WriteHeader T w =
     (let header = map (\<lambda>field. Tag_Get field csvTag) (filter isValidCSVField T)
      in case csv_Write (Writer w) header of
           (cw, err) \<Rightarrow> (w\<lparr>Writer := cw\<rparr>, err))"

text \<open>What a value of the record holds where the type of its field says so.\<close>

fun pointee :: "goval \<Rightarrow> goval" where
  "pointee (VPtr v) = v"
| "pointee v = v"

fun timeOf :: "goval \<Rightarrow> gotime" where
  "timeOf (VTime t) = t"
| "timeOf v = zero_time"

fun elements :: "goval \<Rightarrow> goval list" where
  "elements (VSlice vs) = vs"
| "elements v = []"

text \<open>
  The body of the loop of \<^verbatim>\<open>WriteRecord\<close> for one eligible field: the text appended to
  the row, or the error with which \<^verbatim>\<open>WriteRecord\<close> returns.
\<close>

definition WriteField :: "env \<Rightarrow> field \<Rightarrow> goval \<Rightarrow> goerror + string" where
  "WriteField env field fieldValue0 =
     (let csvTagValue = Tag_Get field csvTag;
          kindPtr = isPtr (Type field);
          kindSlice = isSlice (Type field)
      in
      if kindPtr \<and> fieldValue0 = VNil then Inr (Tag_Get field nullTag)
      else
        let fieldValue = (if kindPtr then pointee fieldValue0 else fieldValue0);
            fieldType = (if kindPtr then Elem (Type field) else Type field)
        in
        (case (if ConvertibleToTime fieldType then Tag_Lookup field timeFormatTag else None) of
           Some timeFormat \<Rightarrow>
             (case Tag_Lookup field timeLocationTag of
                Some timeLocation \<Rightarrow>
                  (case time_LoadLocation env timeLocation of
                     Inl err \<Rightarrow> Inl (FieldFormatError csvTagValue err)
                   | Inr location \<Rightarrow>
                       Inr (time_Format env (time_In env (timeOf fieldValue) location) timeFormat))
              | None \<Rightarrow> Inr (time_Format env (timeOf fieldValue) timeFormat))
         | None \<Rightarrow>
             (case MarshalText env fieldType of
                Some hook \<Rightarrow>
                  (case hook fieldValue of
                     Inl err \<Rightarrow> Inl (FieldFormatError csvTagValue err)
                   | Inr text \<Rightarrow> Inr text)
              | None \<Rightarrow>
                  if kindSlice then
                    (let separator = Tag_Get field separatorTag;
                         format = (case Tag_Lookup field formatTag of
                                     Some format \<Rightarrow> format
                                   | None \<Rightarrow> ''%v'')
                     in Inr (joinItems separator (map (Sprintf env format) (elements fieldValue))))
                  else
                    (case Tag_Lookup field formatTag of
                       Some format \<Rightarrow> Inr (Sprintf env format fieldValue)
                     | None \<Rightarrow> Inr (Sprintf env ''%v'' fieldValue)))))"




section \<open>The record types of the package's tests\<close>

text \<open>
  \<^verbatim>\<open>PersonStatus\<close> and its two text hooks, the tagged fields of \<^verbatim>\<open>Person\<close>, and the record
  types \<^verbatim>\<open>OptionalTestRecord\<close>, \<^verbatim>\<open>SliceTestRecord\<close> and \<^verbatim>\<open>MarshalTextTestRecord\<close>, as
  the test package declares them.
\<close>

definition PersonStatus :: gotype where
  "PersonStatus = TNamed ''PersonStatus'' (TUint 8)"

definition PersonStatus_MarshalText :: "goval \<Rightarrow> goerror + string" where
  "PersonStatus_MarshalText status =
     (if status = VInt 0 then Inr ''unknown''
      else if status = VInt 1 then Inr ''active''
      else if status = VInt 2 then Inr ''inactive''
      else Inl (OtherError ''unknown status''))"

definition PersonStatus_UnmarshalText :: "string \<Rightarrow> goval \<times> goerror option" where
  "PersonStatus_UnmarshalText text =
     (if text = ''unknown'' then (VInt 0, None)
      else if text = ''active'' then (VInt 1, None)
      else if text = ''inactive'' then (VInt 2, None)
      else (VInt 0, Some (OtherError ''unknown status'')))"

definition Person_Name :: field where
  "Person_Name = \<lparr>Name = ''Name'', PkgPath = [], Type = TString, Tag = [(''csv'', ''name'')]\<rparr>"

definition Person_Age :: field where
  "Person_Age = \<lparr>Name = ''Age'', PkgPath = [], Type = TUint 8, Tag = [(''csv'', ''age'')]\<rparr>"


definition Person_Active :: field where
  "Person_Active = \<lparr>Name = ''Active'', PkgPath = [], Type = TBool, Tag = [(''csv'', ''active'')]\<rparr>"


definition Person_Optional :: field where
  "Person_Optional = \<lparr>Name = ''Optional'', PkgPath = [], Type = TPtr TString,
     Tag = [(''csv'', ''optional''), (''null'', ''NULL'')]\<rparr>"

definition Person_Skipped :: field where
  "Person_Skipped = \<lparr>Name = ''Skipped'', PkgPath = [], Type = TString, Tag = []\<rparr>"


definition SliceTestRecord :: struct where
  "SliceTestRecord =
     [\<lparr>Name = ''Slice'', PkgPath = [], Type = TSlice TString,
        Tag = [(''csv'', ''slice''), (''separator'', '';'')]\<rparr>,
      \<lparr>Name = ''SliceWithNewLine'', PkgPath = [], Type = TSlice TString,
        Tag = [(''csv'', ''slice_with_new_line''), (''separator'', [CHR 0x0A])]\<rparr>,
      \<lparr>Name = ''SliceWithoutSeparator'', PkgPath = [], Type = TSlice TString,
        Tag = [(''csv'', ''slice_without_separator'')]\<rparr>]"

definition MarshalTextTestRecord :: struct where
  "MarshalTextTestRecord =
     [\<lparr>Name = ''PersonStatus'', PkgPath = [], Type = PersonStatus,
        Tag = [(''csv'', ''person_status'')]\<rparr>]"

text \<open>
  The collaborators of the tests' record types that have no time field and no floating
  point field: \<^verbatim>\<open>PersonStatus\<close> is the one type with text hooks. The time library and
  the floating point conversion are not reached from such a record type; here they
  answer every call with an error or with the text they were given.
\<close>

definition test_env :: env where
  "test_env =
     \<lparr>time_LoadLocation = (\<lambda>name. Inl (OtherError (''unknown time zone '' @ name))),
      time_ParseInLocation = (\<lambda>layout value location. Inl (OtherError ''parsing time'')),
      time_Parse = (\<lambda>layout value. Inl (OtherError ''parsing time'')),
      time_In = (\<lambda>t location. t),
      time_Format = (\<lambda>t layout. layout),
      UnmarshalText = (\<lambda>t. if t = PersonStatus then Some PersonStatus_UnmarshalText else None),
      MarshalText = (\<lambda>t. if t = PersonStatus then Some PersonStatus_MarshalText else None),
      strconv_ParseFloat = (\<lambda>tok bitSize. Inl (ErrSyntax tok)),
      fmt_Sprintf = (\<lambda>format v. format)\<rparr>"

section \<open>Values that survive being written\<close>








section \<open>Properties of the header index\<close>

lemma mapHeader_absent:
  "name \<notin> set header \<Longrightarrow> mapHeader header i m name = m name"
  by (induction header arbitrary: i m) auto

lemma mapHeader_last:
  assumes "k < length header"
    and "\<forall>j. k < j \<and> j < length header \<longrightarrow> header ! j \<noteq> header ! k"
  shows "mapHeader header i m (header ! k) = Some (i + k)"
  using assms
proof (induction header arbitrary: i m k)
  case Nil
  then show ?case by simp
next
  case (Cons x xs)
  show ?case
  proof (cases k)
    case 0
    have "x \<notin> set xs"
    proof
      assume "x \<in> set xs"
      then obtain j where "j < length xs" "xs ! j = x"
        by (auto simp: in_set_conv_nth)
      with Cons.prems(2) 0 show False
        by (auto dest: spec [where x = "Suc j"])
    qed
    with 0 show ?thesis
      by (simp add: mapHeader_absent)
  next
    case (Suc k')
    have "\<forall>j. k' < j \<and> j < length xs \<longrightarrow> xs ! j \<noteq> xs ! k'"
    proof (intro allI impI)
      fix j
      assume "k' < j \<and> j < length xs"
      with Cons.prems(2) Suc show "xs ! j \<noteq> xs ! k'"
        by (auto dest: spec [where x = "Suc j"])
    qed
    with Cons.prems(1) Suc have "mapHeader xs (Suc i) (m(x \<mapsto> i)) (xs ! k') = Some (Suc i + k')"
      by (intro Cons.IH) auto
    with Suc show ?thesis by simp
  qed
qed

lemma dom_mapHeader:
  "dom (mapHeader header i m) = dom m \<union> set header"
  by (induction header arbitrary: i m) auto

lemma ex_last_occurrence:
  "x \<in> set xs \<Longrightarrow> \<exists>k<length xs. xs ! k = x \<and> (\<forall>j. k < j \<and> j < length xs \<longrightarrow> xs ! j \<noteq> x)"
proof (induction xs rule: rev_induct)
  case Nil
  then show ?case by simp
next
  case (snoc y ys)
  show ?case
  proof (cases "y = x")
    case True
    have "length ys < length (ys @ [y])" by simp
    moreover have "(ys @ [y]) ! length ys = x" using True by simp
    moreover have "\<forall>j. length ys < j \<and> j < length (ys @ [y]) \<longrightarrow> (ys @ [y]) ! j \<noteq> x"
      by auto
    ultimately show ?thesis by blast
  next
    case False
    with snoc obtain k where k: "k < length ys" "ys ! k = x"
      "\<forall>j. k < j \<and> j < length ys \<longrightarrow> ys ! j \<noteq> x"
      by auto
    have "k < length (ys @ [y])" using k by simp
    moreover have "(ys @ [y]) ! k = x" using k by (simp add: nth_append)
    moreover have "\<forall>j. k < j \<and> j < length (ys @ [y]) \<longrightarrow> (ys @ [y]) ! j \<noteq> x"
    proof (intro allI impI)
      fix j
      assume j: "k < j \<and> j < length (ys @ [y])"
      show "(ys @ [y]) ! j \<noteq> x"
      proof (cases "j < length ys")
        case True
        with k j show ?thesis by (simp add: nth_append)
      next
        case False
        with j have "j = length ys" by simp
        with \<open>y \<noteq> x\<close> show ?thesis by simp
      qed
    qed
    ultimately show ?thesis by blast
  qed
qed


lemma mapHeader_index:
  "mapHeader header 0 Map.empty name = Some k \<longleftrightarrow>
     k < length header \<and> header ! k = name \<and>
     (\<forall>j. k < j \<and> j < length header \<longrightarrow> header ! j \<noteq> name)"
    (is "?found \<longleftrightarrow> ?last k")
proof
  assume found: ?found
  then have "name \<in> dom (mapHeader header 0 Map.empty)"
    by blast
  then have "name \<in> set header"
    by (simp add: dom_mapHeader)
  then obtain k' where k': "k' < length header" "header ! k' = name"
    "\<forall>j. k' < j \<and> j < length header \<longrightarrow> header ! j \<noteq> name"
    using ex_last_occurrence [of name header] by blast
  from k' have "mapHeader header 0 Map.empty (header ! k') = Some (0 + k')"
    by (intro mapHeader_last) simp_all
  with found k'(2) have "k = k'" by simp
  with k' show "?last k" by simp
next
  assume last: "?last k"
  then have "mapHeader header 0 Map.empty (header ! k) = Some (0 + k)"
    by (intro mapHeader_last) simp_all
  with last show ?found by simp
qed


text \<open>
  C4. \<^verbatim>\<open>ReadHeader\<close> on a tokenizer whose next row is \<open>header\<close> returns no error and
  stores an index that maps a name to a position exactly when that position is the
  last one at which the row holds the name: every cell is mapped to a zero-based
  position of its text, and of two cells with the same text the later one wins.
\<close>

theorem ReadHeader_last_occurrence_wins:
  assumes "Reader r = Inr header # rest"
  shows "\<exists>m. ReadHeader r = (r\<lparr>Reader := rest, Header := Some m\<rparr>, None) \<and>
    (\<forall>name k. m name = Some k \<longleftrightarrow>
       k < length header \<and> header ! k = name \<and>
       (\<forall>j. k < j \<and> j < length header \<longrightarrow> header ! j \<noteq> name))"
proof -
  have "ReadHeader r = (r\<lparr>Reader := rest, Header := Some (mapHeader header 0 Map.empty)\<rparr>, None)"
    using assms by (simp add: ReadHeader_def)
  then show ?thesis
    using mapHeader_index [of header] by blast
qed


theorem ReadHeader_last_occurrence_wins_witness:
  "snd (ReadHeader (NewReader [Inr [''id'', ''name'', ''id'']])) = None \<and>
   the (Header (fst (ReadHeader (NewReader [Inr [''id'', ''name'', ''id'']])))) ''id'' = Some 2"
proof -
  let ?header = "[''id'', ''name'', ''id'']"
  let ?r = "NewReader [Inr ?header]"
  have "Reader ?r = Inr ?header # []"
    by (simp add: NewReader_def)
  from ReadHeader_last_occurrence_wins [OF this]
  obtain m where m: "ReadHeader ?r = (?r\<lparr>Reader := [], Header := Some m\<rparr>, None)"
    and index: "\<And>name k. m name = Some k \<longleftrightarrow>
       k < length ?header \<and> ?header ! k = name \<and>
       (\<forall>j. k < j \<and> j < length ?header \<longrightarrow> ?header ! j \<noteq> name)"
    by blast
  have "\<forall>j::nat. 2 < j \<and> j < length ?header \<longrightarrow> ?header ! j \<noteq> ''id''"
    by auto
  moreover have "(2::nat) < length ?header" and "?header ! 2 = ''id''"
    by simp_all
  ultimately have "m ''id'' = Some 2"
    using index [of "''id''" 2] by blast
  with m show ?thesis
    by simp
qed

section \<open>Unfolding the definitions on concrete inputs\<close>

lemmas tag_simps = Tag_Get_def Tag_Lookup_def csvTag_def nullTag_def formatTag_def
  timeFormatTag_def timeLocationTag_def separatorTag_def isValidCSVField_def IsExported_def

lemmas type_simps = isPtr_def isSlice_def Elem_def ConvertibleToTime_def PersonStatus_def

lemmas scan_simps = Sscanf_def scanOne_def scanBool_def scanInt_def scanUint_def scanFloat_def
  convertString_def isSpace_def peek_def accept_def acceptAll_def scanBasePrefix_def
  scanNumber_def ParseUint_def ParseInt_def digitVal_def maxUint64_def underscoreOK_def
  sign_def binaryDigits_def octalDigits_def decimalDigits_def hexadecimalDigits_def
  period_def exponent_def floatToken_def boolError_def cantScan_def

lemma Person_Name_column:
  "isValidCSVField Person_Name" "Tag_Get Person_Name csvTag = ''name''"
  by (simp_all add: Person_Name_def tag_simps)

lemma Person_Age_column:
  "isValidCSVField Person_Age" "Tag_Get Person_Age csvTag = ''age''"
  by (simp_all add: Person_Age_def tag_simps)

lemma ReadField_Person_Name_John:
  "ReadField test_env Person_Name ''John'' = (VString ''John'', None)"
  by (simp add: ReadField_def Person_Name_def test_env_def tag_simps type_simps scan_simps)

lemma ReadField_Person_Age_55:
  "ReadField test_env Person_Age ''55'' = (VInt 55, None)"
  by (simp add: ReadField_def Person_Age_def test_env_def tag_simps type_simps scan_simps)

lemma ReadField_Person_Age_1:
  "ReadField test_env Person_Age ''1'' = (VInt 1, None)"
  by (simp add: ReadField_def Person_Age_def test_env_def tag_simps type_simps scan_simps)

lemma ReadField_Person_Age_abc:
  "ReadField test_env Person_Age ''abc''
     = (VInt 0, Some (FieldParseError ''age'' (ScanError ''expected integer'')))"
  by (simp add: ReadField_def Person_Age_def test_env_def tag_simps type_simps scan_simps)

section \<open>Reading before the header\<close>

lemma ReadRecord_nil_Header:
  "Header r = None \<Longrightarrow> ReadRecord env T r = (r, Returns (None, Some ErrHeaderNotRead))"
  by (simp add: ReadRecord_def)

lemma ReadRecord_row:
  assumes "Header r = Some header" and "Reader r = Inr values # rest"
  shows "ReadRecord env T r =
    (r\<lparr>Reader := rest\<rparr>,
     case ReadFields env header values T of
       Panics \<Rightarrow> Panics
     | Returns (vs, err) \<Rightarrow> Returns (Some vs, err))"
  using assms by (simp add: ReadRecord_def)

lemma ReadRecord_error_row:
  assumes "Header r = Some header" and "Reader r = Inl e # rest"
  shows "ReadRecord env T r = (r\<lparr>Reader := rest\<rparr>, Returns (None, Some e))"
  using assms by (simp add: ReadRecord_def)

lemma ReadRecord_end:
  assumes "Header r = Some header" and "Reader r = []"
  shows "ReadRecord env T r = (r, Returns (None, Some EOF))"
  using assms by (simp add: ReadRecord_def)

text \<open>
  C10. On a reader whose header has not been read, \<^verbatim>\<open>ReadRecord\<close> returns
  \<^verbatim>\<open>ErrHeaderNotRead\<close> with a nil record and the reader it was given: no row is taken
  from the tokenizer and the header index is still nil.
\<close>

theorem ReadRecord_before_ReadHeader_keeps_reader:
  assumes "Header r = None"
  shows "ReadRecord env T r = (r, Returns (None, Some ErrHeaderNotRead))"
proof -
  from assms have "case_option (r, Returns (None, Some ErrHeaderNotRead)) f (Header r)
      = (r, Returns (None, Some ErrHeaderNotRead))" for f
    by simp
  then show ?thesis
    unfolding ReadRecord_def .
qed

theorem ReadRecord_before_ReadHeader_keeps_reader_witness:
  "Reader (fst (ReadRecord test_env [Person_Name, Person_Age]
       (NewReader [Inr [''name'', ''age''], Inr [''John'', ''55'']])))
     = [Inr [''name'', ''age''], Inr [''John'', ''55'']] \<and>
   Header (fst (ReadRecord test_env [Person_Name, Person_Age]
       (NewReader [Inr [''name'', ''age''], Inr [''John'', ''55'']]))) = None \<and>
   snd (ReadRecord test_env [Person_Name, Person_Age]
       (NewReader [Inr [''name'', ''age''], Inr [''John'', ''55'']]))
     = Returns (None, Some ErrHeaderNotRead)"
proof -
  have "Header (NewReader [Inr [''name'', ''age''], Inr [''John'', ''55'']]) = None"
    by (simp add: NewReader_def)
  from ReadRecord_before_ReadHeader_keeps_reader [OF this, of test_env "[Person_Name, Person_Age]"]
  show ?thesis
    by (simp add: NewReader_def)
qed

text \<open>
  C5. While the header index is nil, \<^verbatim>\<open>ReadRecord\<close> and \<^verbatim>\<open>ReadAll\<close> fail with
  \<^verbatim>\<open>ErrHeaderNotRead\<close>, and a \<^verbatim>\<open>ReadHeader\<close> that fails leaves the index nil. After
  a \<^verbatim>\<open>ReadHeader\<close> that succeeds the index is set and \<^verbatim>\<open>ReadRecord\<close> on the same
  reader takes what the tokenizer gives next: a row is decoded by the loop over the
  fields, an error of the tokenizer is returned as it is, the end of the input is
  \<^verbatim>\<open>io.EOF\<close>.
\<close>

theorem ReadRecord_needs_ReadHeader:
  assumes "Header r = None"
  shows "snd (ReadRecord env T r) = Returns (None, Some ErrHeaderNotRead) \<and>
    snd (ReadAll env T r) = Returns ([], Some ErrHeaderNotRead) \<and>
    (\<forall>r' e. ReadHeader r = (r', Some e) \<longrightarrow> Header r' = None) \<and>
    (\<forall>r'. ReadHeader r = (r', None) \<longrightarrow>
       (\<exists>header. Header r' = Some header \<and>
          (\<forall>values rest. Reader r' = Inr values # rest \<longrightarrow>
             ReadRecord env T r' =
               (r'\<lparr>Reader := rest\<rparr>,
                case ReadFields env header values T of
                  Panics \<Rightarrow> Panics
                | Returns (vs, err) \<Rightarrow> Returns (Some vs, err))) \<and>
          (\<forall>e rest. Reader r' = Inl e # rest \<longrightarrow>
             ReadRecord env T r' = (r'\<lparr>Reader := rest\<rparr>, Returns (None, Some e))) \<and>
          (Reader r' = [] \<longrightarrow> ReadRecord env T r' = (r', Returns (None, Some EOF)))))"
proof (intro conjI allI impI)
  show "snd (ReadRecord env T r) = Returns (None, Some ErrHeaderNotRead)"
    using assms by (simp add: ReadRecord_nil_Header)
  show "snd (ReadAll env T r) = Returns ([], Some ErrHeaderNotRead)"
    using assms by (simp add: ReadAll_def ReadAll_loop.simps ReadRecord_nil_Header)
next
  fix r' e
  assume "ReadHeader r = (r', Some e)"
  with assms show "Header r' = None"
    by (cases "Reader r") (auto simp: ReadHeader_def split: sum.splits)
next
  fix r'
  assume ok: "ReadHeader r = (r', None)"
  then obtain header where "Header r' = Some header"
    by (cases "Reader r") (auto simp: ReadHeader_def split: sum.splits)
  then show "\<exists>header. Header r' = Some header \<and>
          (\<forall>values rest. Reader r' = Inr values # rest \<longrightarrow>
             ReadRecord env T r' =
               (r'\<lparr>Reader := rest\<rparr>,
                case ReadFields env header values T of
                  Panics \<Rightarrow> Panics
                | Returns (vs, err) \<Rightarrow> Returns (Some vs, err))) \<and>
          (\<forall>e rest. Reader r' = Inl e # rest \<longrightarrow>
             ReadRecord env T r' = (r'\<lparr>Reader := rest\<rparr>, Returns (None, Some e))) \<and>
          (Reader r' = [] \<longrightarrow> ReadRecord env T r' = (r', Returns (None, Some EOF)))"
    by (auto simp: ReadRecord_row ReadRecord_error_row ReadRecord_end)
qed


theorem ReadRecord_needs_ReadHeader_witness:
  "snd (ReadRecord test_env [Person_Name, Person_Age]
       (NewReader [Inr [''name'', ''age''], Inr [''John'', ''55'']]))
     = Returns (None, Some ErrHeaderNotRead) \<and>
   snd (ReadAll test_env [Person_Name, Person_Age]
       (NewReader [Inr [''name'', ''age''], Inr [''John'', ''55'']]))
     = Returns ([], Some ErrHeaderNotRead) \<and>
   snd (ReadHeader (NewReader [Inr [''name'', ''age''], Inr [''John'', ''55'']])) = None \<and>
   snd (ReadRecord test_env [Person_Name, Person_Age]
       (fst (ReadHeader (NewReader [Inr [''name'', ''age''], Inr [''John'', ''55'']]))))
     = Returns (Some [VString ''John'', VInt 55], None)"
proof -
  let ?r = "NewReader [Inr [''name'', ''age''], Inr [''John'', ''55'']]"
  let ?T = "[Person_Name, Person_Age]"
  let ?r' = "fst (ReadHeader ?r)"
  have nil: "Header ?r = None"
    by (simp add: NewReader_def)
  note facts = ReadRecord_needs_ReadHeader [OF nil, of test_env ?T]
  have ok: "ReadHeader ?r = (?r', None)"
    by (simp add: ReadHeader_def NewReader_def)
  have next_row: "Reader ?r' = Inr [''John'', ''55''] # []"
    by (simp add: ReadHeader_def NewReader_def)
  from facts ok obtain header where header: "Header ?r' = Some header"
    and row: "\<forall>values rest. Reader ?r' = Inr values # rest \<longrightarrow>
             ReadRecord test_env ?T ?r' =
               (?r'\<lparr>Reader := rest\<rparr>,
                case ReadFields test_env header values ?T of
                  Panics \<Rightarrow> Panics
                | Returns (vs, err) \<Rightarrow> Returns (Some vs, err))"
    by blast
  have "header = mapHeader [''name'', ''age''] 0 Map.empty"
    using header by (simp add: ReadHeader_def NewReader_def)
  then have "ReadFields test_env header [''John'', ''55''] ?T
      = Returns ([VString ''John'', VInt 55], None)"
    by (simp add: Person_Name_column Person_Age_column
        ReadField_Person_Name_John ReadField_Person_Age_55)
  with row next_row have decoded: "snd (ReadRecord test_env ?T ?r')
      = Returns (Some [VString ''John'', VInt 55], None)"
    by simp
  from ok have "snd (ReadHeader ?r) = None"
    by (metis snd_conv)
  with facts decoded show ?thesis
    by (intro conjI) blast+
qed

section \<open>The header row of a record type\<close>

lemma WriteHeader_row:
  "Rows (Writer (fst (WriteHeader T w)))
     = Rows (Writer w) @ [map (\<lambda>field. Tag_Get field csvTag) (filter isValidCSVField T)]"
  by (cases "Faults (Writer w)") (simp_all add: WriteHeader_def csv_Write_def)

text \<open>
  C8. \<^verbatim>\<open>WriteHeader\<close>, which is given the record type and no record, hands the sink one
  row: the column names of the eligible fields in the order of their declaration.
  \<^verbatim>\<open>ReadHeader\<close> on that row stores an index in which a column name whose declaration
  is not followed by another of the same name has its position in that order; so has
  every column name when the names are distinct.
\<close>

theorem WriteHeader_ReadHeader_positions:
  assumes "names = map (\<lambda>field. Tag_Get field csvTag) (filter isValidCSVField T)"
  shows "Rows (Writer (fst (WriteHeader T w))) = Rows (Writer w) @ [names] \<and>
     (\<exists>m. ReadHeader (NewReader (Inr names # rest))
            = (\<lparr>Reader = rest, Header = Some m\<rparr>, None) \<and>
          (\<forall>k<length names.
             (\<forall>j. k < j \<and> j < length names \<longrightarrow> names ! j \<noteq> names ! k)
               \<longrightarrow> m (names ! k) = Some k) \<and>
          (distinct names \<longrightarrow> (\<forall>k<length names. m (names ! k) = Some k)))"
proof -
  let ?m = "mapHeader names 0 Map.empty"
  have written: "Rows (Writer (fst (WriteHeader T w))) = Rows (Writer w) @ [names]"
    unfolding assms by (rule WriteHeader_row)
  have read: "ReadHeader (NewReader (Inr names # rest)) = (\<lparr>Reader = rest, Header = Some ?m\<rparr>, None)"
    by (simp add: ReadHeader_def NewReader_def)
  have last: "?m (names ! k) = Some k"
    if "k < length names" "\<forall>j. k < j \<and> j < length names \<longrightarrow> names ! j \<noteq> names ! k" for k
    using that by (simp add: mapHeader_index)
  have "?m (names ! k) = Some k" if "distinct names" "k < length names" for k
  proof (rule last)
    show "k < length names" by fact
    show "\<forall>j. k < j \<and> j < length names \<longrightarrow> names ! j \<noteq> names ! k"
      using that by (auto simp: nth_eq_iff_index_eq)
  qed
  with written read last show ?thesis
    by blast
qed

theorem WriteHeader_ReadHeader_positions_witness:
  "Rows (Writer (fst (WriteHeader [Person_Name, Person_Age, Person_Skipped, Person_Active]
       \<lparr>Writer = \<lparr>Rows = [], Faults = []\<rparr>\<rparr>))) = [[''name'', ''age'', ''active'']] \<and>
   snd (ReadHeader (NewReader [Inr [''name'', ''age'', ''active'']])) = None \<and>
   the (Header (fst (ReadHeader (NewReader [Inr [''name'', ''age'', ''active'']])))) ''active''
     = Some 2"
proof -
  let ?T = "[Person_Name, Person_Age, Person_Skipped, Person_Active]"
  let ?w = "\<lparr>Writer = \<lparr>Rows = [], Faults = []\<rparr>\<rparr>"
  let ?names = "[''name'', ''age'', ''active'']"
  have names: "?names = map (\<lambda>field. Tag_Get field csvTag) (filter isValidCSVField ?T)"
    by (simp add: Person_Name_def Person_Age_def Person_Skipped_def Person_Active_def tag_simps)
  from WriteHeader_ReadHeader_positions [OF names, of ?w "[]"]
  obtain m where rows: "Rows (Writer (fst (WriteHeader ?T ?w))) = Rows (Writer ?w) @ [?names]"
    and read: "ReadHeader (NewReader [Inr ?names]) = (\<lparr>Reader = [], Header = Some m\<rparr>, None)"
    and all: "distinct ?names \<longrightarrow> (\<forall>k<length ?names. m (?names ! k) = Some k)"
    by blast
  have "distinct ?names"
    by simp
  with all have "\<forall>k<length ?names. m (?names ! k) = Some k" ..
  then have "(2::nat) < length ?names \<longrightarrow> m (?names ! 2) = Some 2" ..
  then have "m ''active'' = Some 2"
    by simp
  with rows read show ?thesis
    by simp
qed

section \<open>The null token of an optional field\<close>

text \<open>
  C9. For a field of pointer kind whose tag declares a null token: a cell whose text
  is the token is decoded to the nil pointer, with no error, and the nil pointer is
  encoded as the text of the token.
\<close>

theorem null_token_decodes_to_nil_and_back:
  assumes "isPtr (Type field)" and "Tag_Lookup field nullTag = Some token"
  shows "ReadField env field token = (VNil, None) \<and> WriteField env field VNil = Inr token"
proof
  from assms show "ReadField env field token = (VNil, None)"
    by (simp add: ReadField_def)
  from assms(2) have "Tag_Get field nullTag = token"
    by (simp add: Tag_Get_def)
  with assms(1) show "WriteField env field VNil = Inr token"
    by (simp add: WriteField_def)
qed

theorem null_token_decodes_to_nil_and_back_witness:
  "isPtr (Type Person_Optional) \<and> Tag_Lookup Person_Optional nullTag = Some ''NULL'' \<and>
   ReadField test_env Person_Optional ''NULL'' = (VNil, None) \<and>
   WriteField test_env Person_Optional VNil = Inr ''NULL''"
proof -
  have ptr: "isPtr (Type Person_Optional)"
    by (simp add: Person_Optional_def isPtr_def)
  have tok: "Tag_Lookup Person_Optional nullTag = Some ''NULL''"
    by (simp add: Person_Optional_def Tag_Lookup_def nullTag_def)
  from null_token_decodes_to_nil_and_back [OF ptr tok, of test_env] ptr tok
  show ?thesis by simp
qed

section \<open>Columns that the header does not have\<close>

lemma length_new [simp]: "length (new T) = length T"
  by (simp add: new_def)

lemma new_append: "new (xs @ ys) = new xs @ new ys"
  by (simp add: new_def)

lemma new_Cons: "new (f # fs) = Zero (Type f) # new fs"
  by (simp add: new_def)

lemma ReadFields_length:
  "ReadFields env header values T = Returns (vs, err) \<Longrightarrow> length vs = length T"
proof (induction T arbitrary: vs err)
  case Nil
  then show ?case by simp
next
  case (Cons f fs)
  then show ?case
    by (auto split: if_splits option.splits outcome.splits prod.splits)
qed

lemma ReadFields_skip:
  assumes "\<not> isValidCSVField field \<or> header (Tag_Get field csvTag) = None"
  shows "ReadFields env header values (field # later) =
     (case ReadFields env header values later of
        Panics \<Rightarrow> Panics
      | Returns (vs, err) \<Rightarrow> Returns (Zero (Type field) # vs, err))"
  using assms by auto

lemma ReadFields_absent:
  assumes "header (Tag_Get field csvTag) = None"
  shows "ReadFields env header values (before @ field # later) =
     (case ReadFields env header values (before @ later) of
        Panics \<Rightarrow> Panics
      | Returns (vs, err) \<Rightarrow>
          Returns (take (length before) vs @ Zero (Type field) # drop (length before) vs, err))"
proof (induction before)
  case Nil
  from assms show ?case
    by (simp add: ReadFields_skip split: outcome.splits)
next
  case (Cons f fs)
  show ?case
  proof (cases "\<not> isValidCSVField f \<or> header (Tag_Get f csvTag) = None")
    case True
    then show ?thesis
      using Cons.IH by (simp add: ReadFields_skip del: ReadFields.simps split: outcome.splits)
  next
    case False
    then obtain index where index: "isValidCSVField f" "header (Tag_Get f csvTag) = Some index"
      by auto
    show ?thesis
    proof (cases "index \<ge> length values")
      case True
      with index show ?thesis by simp
    next
      case False
      obtain v e where rf: "ReadField env f (values ! index) = (v, e)"
        by (cases "ReadField env f (values ! index)")
      show ?thesis
      proof (cases e)
        case None
        with rf index False Cons.IH show ?thesis
          by (simp split: outcome.splits)
      next
        case (Some err)
        with rf index False show ?thesis
          by (simp add: new_append new_Cons)
      qed
    qed
  qed
qed


lemma ReadRecord_returns_record:
  assumes "ReadRecord env T r = (r', Returns (Some vs, err))"
  shows "\<exists>header cells. Header r = Some header \<and> ReadFields env header cells T = Returns (vs, err)"
proof (cases "Header r")
  case None
  with assms show ?thesis
    by (simp add: ReadRecord_def)
next
  case (Some header)
  show ?thesis
  proof (cases "Reader r")
    case Nil
    with Some assms show ?thesis
      by (simp add: ReadRecord_def)
  next
    case (Cons x rest)
    show ?thesis
    proof (cases x)
      case (Inl e)
      with Some Cons assms show ?thesis
        by (simp add: ReadRecord_def)
    next
      case (Inr cells)
      with Some Cons assms have "ReadFields env header cells T = Returns (vs, err)"
        by (auto simp: ReadRecord_def split: outcome.splits)
      with Some show ?thesis
        by blast
    qed
  qed
qed

text \<open>
  C6. When the header index has no entry for the column name of a field, \<^verbatim>\<open>ReadRecord\<close>
  does for the record type what it does for the type without that field, and the
  field holds its zero value in every record the call returns: the field is skipped,
  it adds no error and changes neither the other fields nor the error of the call.
\<close>

theorem ReadRecord_absent_column:
  assumes "Header r = Some header" and "header (Tag_Get field csvTag) = None"
  shows "ReadRecord env (before @ field # later) r =
     (case ReadRecord env (before @ later) r of
        (r', Panics) \<Rightarrow> (r', Panics)
      | (r', Returns (None, err)) \<Rightarrow> (r', Returns (None, err))
      | (r', Returns (Some vs, err)) \<Rightarrow>
          (r', Returns (Some (take (length before) vs @ Zero (Type field)
                               # drop (length before) vs), err))) \<and>
    (\<forall>r' vs err. ReadRecord env (before @ field # later) r = (r', Returns (Some vs, err))
       \<longrightarrow> vs ! length before = Zero (Type field))"
proof
  show same: "ReadRecord env (before @ field # later) r =
     (case ReadRecord env (before @ later) r of
        (r', Panics) \<Rightarrow> (r', Panics)
      | (r', Returns (None, err)) \<Rightarrow> (r', Returns (None, err))
      | (r', Returns (Some vs, err)) \<Rightarrow>
          (r', Returns (Some (take (length before) vs @ Zero (Type field)
                               # drop (length before) vs), err)))"
  proof (cases "Reader r")
    case Nil
    with assms(1) show ?thesis
      by (simp add: ReadRecord_def)
  next
    case (Cons x rest)
    show ?thesis
    proof (cases x)
      case (Inl e)
      with Cons assms(1) show ?thesis
        by (simp add: ReadRecord_def)
    next
      case (Inr cells)
      with Cons assms(1) show ?thesis
        by (simp add: ReadRecord_def ReadFields_absent [where header = header and field = field, OF assms(2)] split: outcome.splits)
    qed
  qed
  show "\<forall>r' vs err. ReadRecord env (before @ field # later) r = (r', Returns (Some vs, err))
       \<longrightarrow> vs ! length before = Zero (Type field)"
  proof (intro allI impI)
    fix r' vs err
    assume ret: "ReadRecord env (before @ field # later) r = (r', Returns (Some vs, err))"
    obtain r0 res where other: "ReadRecord env (before @ later) r = (r0, res)"
      by (cases "ReadRecord env (before @ later) r")
    with ret same obtain ws where ws: "res = Returns (Some ws, err)"
      and vs: "vs = take (length before) ws @ Zero (Type field) # drop (length before) ws"
      by (auto split: outcome.splits option.splits)
    from other ws assms(1) obtain cells where "ReadFields env header cells (before @ later) = Returns (ws, err)"
      using ReadRecord_returns_record [of env "before @ later" r r0 ws err] by auto
    then have "length ws = length before + length later"
      by (simp add: ReadFields_length)
    then have "length (take (length before) ws) = length before"
      by simp
    with vs show "vs ! length before = Zero (Type field)"
      by (simp add: nth_append)
  qed
qed

theorem ReadRecord_absent_column_witness:
  "snd (ReadRecord test_env [Person_Name, Person_Age]
      \<lparr>Reader = [Inr [''John'']], Header = Some (mapHeader [''name''] 0 Map.empty)\<rparr>)
    = Returns (Some [VString ''John'', VInt 0], None)"
proof -
  let ?header = "mapHeader [''name''] 0 Map.empty"
  let ?r = "\<lparr>Reader = [Inr [''John'']], Header = Some ?header\<rparr>"
  have read: "Header ?r = Some ?header"
    by simp
  have absent: "?header (Tag_Get Person_Age csvTag) = None"
    by (simp add: Person_Age_column)
  have "ReadRecord test_env ([Person_Name] @ []) ?r
      = (?r\<lparr>Reader := []\<rparr>, Returns (Some [VString ''John''], None))"
    by (simp add: ReadRecord_def Person_Name_column ReadField_Person_Name_John)
  with ReadRecord_absent_column [where r = ?r and header = ?header and field = Person_Age
      and env = test_env and before = "[Person_Name]" and later = "[]", OF read absent]
  have "ReadRecord test_env ([Person_Name] @ Person_Age # []) ?r
      = (?r\<lparr>Reader := []\<rparr>, Returns (Some [VString ''John'', Zero (Type Person_Age)], None))"
    by simp
  then show ?thesis
    by (simp add: Person_Age_def)
qed

section \<open>Reading all records\<close>

lemma scanItems_error:
  "scanItems env elemType csvTagValue itemIndex items = Inl e
     \<Longrightarrow> \<exists>name cause. e = FieldParseError name cause"
  by (induction items arbitrary: itemIndex) (auto split: sum.splits)

lemma ReadField_error:
  assumes "ReadField env field cell = (v, Some e)"
  shows "\<exists>name cause. e = FieldParseError name cause"
  using assms scanItems_error
  unfolding ReadField_def Let_def
  by (fastforce split: if_splits sum.splits option.splits prod.splits)

lemma ReadFields_error:
  "ReadFields env header cells T = Returns (vs, Some e)
     \<Longrightarrow> \<exists>name cause. e = FieldParseError name cause"
proof (induction T arbitrary: vs)
  case Nil
  then show ?case by simp
next
  case (Cons f fs)
  show ?case
  proof (cases "\<not> isValidCSVField f \<or> header (Tag_Get f csvTag) = None")
    case True
    with Cons.prems obtain ws where "ReadFields env header cells fs = Returns (ws, Some e)"
      by (auto simp: ReadFields_skip simp del: ReadFields.simps split: outcome.splits)
    then show ?thesis by (rule Cons.IH)
  next
    case False
    then obtain index where index: "isValidCSVField f" "header (Tag_Get f csvTag) = Some index"
      by auto
    obtain v e' where rf: "ReadField env f (cells ! index) = (v, e')"
      by (cases "ReadField env f (cells ! index)")
    show ?thesis
    proof (cases e')
      case None
      with Cons.prems index rf obtain ws where "ReadFields env header cells fs = Returns (ws, Some e)"
        by (auto split: if_splits outcome.splits)
      then show ?thesis by (rule Cons.IH)
    next
      case (Some err)
      with Cons.prems index rf have "e = err"
        by (auto split: if_splits)
      with Some rf show ?thesis
        using ReadField_error by blast
    qed
  qed
qed

lemma ReadAll_loop_row:
  assumes "Header r = Some header" and "Reader r = Inr row # rest"
    and "ReadFields env header row T = Returns (vs, None)"
  shows "ReadAll_loop env T r records
     = ReadAll_loop env T (r\<lparr>Reader := rest\<rparr>) (records @ [Some vs])"
  using assms by (subst ReadAll_loop.simps) (simp add: ReadRecord_row)

lemma ReadAll_loop_rows:
  assumes "Header r = Some header" and "Reader r = map Inr rows @ tail"
    and "list_all2 (\<lambda>row vs. ReadFields env header row T = Returns (vs, None)) rows decoded"
  shows "ReadAll_loop env T r records
     = ReadAll_loop env T (r\<lparr>Reader := tail\<rparr>) (records @ map Some decoded)"
  using assms(3, 1, 2)
proof (induction rows decoded arbitrary: r records rule: list_all2_induct)
  case Nil
  then have "r\<lparr>Reader := tail\<rparr> = r"
    by (cases r) simp
  then show ?case by simp
next
  case (Cons row rows vs decoded)
  from Cons.prems have "ReadAll_loop env T r records
      = ReadAll_loop env T (r\<lparr>Reader := map Inr rows @ tail\<rparr>) (records @ [Some vs])"
    using Cons.hyps(1) by (intro ReadAll_loop_row) simp_all
  also have "\<dots> = ReadAll_loop env T (r\<lparr>Reader := map Inr rows @ tail\<rparr>\<lparr>Reader := tail\<rparr>)
      ((records @ [Some vs]) @ map Some decoded)"
    using Cons.prems by (intro Cons.IH) simp_all
  finally show ?case by simp
qed

lemma ReadAll_loop_stop:
  assumes "ReadRecord env T r = (r', Returns (p, Some e))"
  shows "ReadAll_loop env T r records
     = (r', Returns (records, if e = EOF then None else Some e))"
  using assms by (subst ReadAll_loop.simps) simp


lemma ReadField_Person_Name_Mary:
  "ReadField test_env Person_Name ''Mary'' = (VString ''Mary'', None)"
  by (simp add: ReadField_def Person_Name_def test_env_def tag_simps type_simps scan_simps)

text \<open>
  C2 does not hold as stated: when a row cannot be decoded, \<^verbatim>\<open>ReadAll\<close> returns
  the error together with the records decoded before it. Here the header is
  \<^verbatim>\<open>age\<close>, the first row \<^verbatim>\<open>1\<close> is decoded and the second row \<^verbatim>\<open>abc\<close> is not an integer.
\<close>

theorem ReadAll_returns_records_with_error:
  "snd (ReadAll test_env [Person_Age]
      (fst (ReadHeader (NewReader [Inr [''age''], Inr [''1''], Inr [''abc'']]))))
    = Returns ([Some [VInt 1]],
        Some (FieldParseError ''age'' (ScanError ''expected integer'')))"
proof -
  let ?header = "mapHeader [''age''] 0 Map.empty"
  let ?r = "\<lparr>Reader = [Inr [''1''], Inr [''abc'']], Header = Some ?header\<rparr>"
  have r: "fst (ReadHeader (NewReader [Inr [''age''], Inr [''1''], Inr [''abc'']])) = ?r"
    by (simp add: ReadHeader_def NewReader_def)
  have first: "list_all2 (\<lambda>row vs. ReadFields test_env ?header row [Person_Age] = Returns (vs, None))
      [[''1'']] [[VInt 1]]"
    by (simp add: Person_Age_column ReadField_Person_Age_1)
  have "ReadAll_loop test_env [Person_Age] ?r []
      = ReadAll_loop test_env [Person_Age] (?r\<lparr>Reader := [Inr [''abc'']]\<rparr>) ([] @ map Some [[VInt 1]])"
    using first by (intro ReadAll_loop_rows [where header = ?header and rows = "[[''1'']]"]) simp_all
  moreover have "ReadRecord test_env [Person_Age] (?r\<lparr>Reader := [Inr [''abc'']]\<rparr>)
      = (?r\<lparr>Reader := []\<rparr>,
         Returns (Some [VInt 0], Some (FieldParseError ''age'' (ScanError ''expected integer''))))"
    by (simp add: ReadRecord_def Person_Age_column ReadField_Person_Age_abc new_def)
  ultimately show ?thesis
    by (simp add: r ReadAll_def ReadAll_loop_stop)
qed

text \<open>
  C2, amended. On a reader whose header has been read, \<^verbatim>\<open>ReadAll\<close> decodes the rows one
  after the other and collects the records. When the tokenizer is at its end (or
  returns \<^verbatim>\<open>io.EOF\<close>) the call returns the collection and no error; with a header and
  no rows that is the empty collection. At the first other error, of the tokenizer or
  of a field, it returns at once, with that error and the records collected before it.
\<close>

theorem ReadAll_collects_until_error:
  assumes "Header r = Some header" and "Reader r = map Inr rows @ tail"
    and "list_all2 (\<lambda>row vs. ReadFields env header row T = Returns (vs, None)) rows decoded"
  shows "(tail = [] \<longrightarrow>
            ReadAll env T r = (r\<lparr>Reader := []\<rparr>, Returns (map Some decoded, None))) \<and>
    (\<forall>e rest. tail = Inl e # rest \<longrightarrow>
            ReadAll env T r
              = (r\<lparr>Reader := rest\<rparr>,
                 Returns (map Some decoded, if e = EOF then None else Some e))) \<and>
    (\<forall>row rest vs e. tail = Inr row # rest \<and> ReadFields env header row T = Returns (vs, Some e) \<longrightarrow>
            ReadAll env T r = (r\<lparr>Reader := rest\<rparr>, Returns (map Some decoded, Some e))) \<and>
    (\<forall>row rest. tail = Inr row # rest \<and> ReadFields env header row T = Panics \<longrightarrow>
            ReadAll env T r = (r\<lparr>Reader := rest\<rparr>, Panics))"
proof -
  let ?r = "r\<lparr>Reader := tail\<rparr>"
  have loop: "ReadAll env T r = ReadAll_loop env T ?r (map Some decoded)"
    using ReadAll_loop_rows [OF assms, of "[]"] by (simp add: ReadAll_def)
  have header: "Header ?r = Some header"
    using assms(1) by simp
  have "ReadAll env T r = (r\<lparr>Reader := []\<rparr>, Returns (map Some decoded, None))" if "tail = []"
  proof -
    from that header have "ReadRecord env T ?r = (?r, Returns (None, Some EOF))"
      by (intro ReadRecord_end) simp_all
    with that show ?thesis
      by (simp add: loop ReadAll_loop_stop)
  qed
  moreover have "ReadAll env T r
      = (r\<lparr>Reader := rest\<rparr>, Returns (map Some decoded, if e = EOF then None else Some e))"
    if "tail = Inl e # rest" for e rest
  proof -
    from that header have "ReadRecord env T ?r = (?r\<lparr>Reader := rest\<rparr>, Returns (None, Some e))"
      by (intro ReadRecord_error_row) simp_all
    then show ?thesis
      by (simp add: loop ReadAll_loop_stop)
  qed
  moreover have "ReadAll env T r = (r\<lparr>Reader := rest\<rparr>, Returns (map Some decoded, Some e))"
    if "tail = Inr row # rest" "ReadFields env header row T = Returns (vs, Some e)" for row rest vs e
  proof -
    from that header have "ReadRecord env T ?r = (?r\<lparr>Reader := rest\<rparr>, Returns (Some vs, Some e))"
      by (simp add: ReadRecord_row [where header = header])
    moreover from that(2) have "e \<noteq> EOF"
      using ReadFields_error by blast
    ultimately show ?thesis
      by (simp add: loop ReadAll_loop_stop)
  qed
  moreover have "ReadAll env T r = (r\<lparr>Reader := rest\<rparr>, Panics)"
    if "tail = Inr row # rest" "ReadFields env header row T = Panics" for row rest
  proof -
    from that header have "ReadRecord env T ?r = (?r\<lparr>Reader := rest\<rparr>, Panics)"
      by (simp add: ReadRecord_row [where header = header])
    then show ?thesis
      by (subst loop, subst ReadAll_loop.simps) simp
  qed
  ultimately show ?thesis
    by blast
qed


theorem ReadAll_collects_until_error_witness:
  "snd (ReadAll test_env [Person_Name, Person_Age]
      (fst (ReadHeader (NewReader
         [Inr [''name'', ''age''], Inr [''John'', ''55''], Inr [''Mary'', ''abc'']]))))
    = Returns ([Some [VString ''John'', VInt 55]],
        Some (FieldParseError ''age'' (ScanError ''expected integer''))) \<and>
   snd (ReadAll test_env [Person_Name, Person_Age]
      (fst (ReadHeader (NewReader [Inr [''name'', ''age'']]))))
    = Returns ([], None)"
proof
  let ?T = "[Person_Name, Person_Age]"
  let ?header = "mapHeader [''name'', ''age''] 0 Map.empty"
  let ?r = "\<lparr>Reader = [Inr [''John'', ''55''], Inr [''Mary'', ''abc'']], Header = Some ?header\<rparr>"
  have r: "fst (ReadHeader (NewReader
         [Inr [''name'', ''age''], Inr [''John'', ''55''], Inr [''Mary'', ''abc'']])) = ?r"
    by (simp add: ReadHeader_def NewReader_def)
  have header: "Header ?r = Some ?header"
    by simp
  have rows: "Reader ?r = map Inr [[''John'', ''55'']] @ [Inr [''Mary'', ''abc'']]"
    by simp
  have decoded: "list_all2 (\<lambda>row vs. ReadFields test_env ?header row ?T = Returns (vs, None))
      [[''John'', ''55'']] [[VString ''John'', VInt 55]]"
    by (simp add: Person_Name_column Person_Age_column
        ReadField_Person_Name_John ReadField_Person_Age_55)
  have failing: "ReadFields test_env ?header [''Mary'', ''abc''] ?T
      = Returns ([VString ''Mary'', VInt 0],
          Some (FieldParseError ''age'' (ScanError ''expected integer'')))"
    by (simp add: Person_Name_column Person_Age_column
        ReadField_Person_Name_Mary ReadField_Person_Age_abc new_def)
  from ReadAll_collects_until_error [OF header rows decoded] failing
  have "ReadAll test_env ?T ?r
      = (?r\<lparr>Reader := []\<rparr>,
         Returns (map Some [[VString ''John'', VInt 55]],
           Some (FieldParseError ''age'' (ScanError ''expected integer''))))"
    by blast
  then show "snd (ReadAll test_env ?T
      (fst (ReadHeader (NewReader
         [Inr [''name'', ''age''], Inr [''John'', ''55''], Inr [''Mary'', ''abc'']]))))
    = Returns ([Some [VString ''John'', VInt 55]],
        Some (FieldParseError ''age'' (ScanError ''expected integer'')))"
    by (simp add: r)
next
  let ?T = "[Person_Name, Person_Age]"
  let ?header = "mapHeader [''name'', ''age''] 0 Map.empty"
  let ?r = "\<lparr>Reader = [], Header = Some ?header\<rparr>"
  have r: "fst (ReadHeader (NewReader [Inr [''name'', ''age'']])) = ?r"
    by (simp add: ReadHeader_def NewReader_def)
  have header: "Header ?r = Some ?header"
    by simp
  have rows: "Reader ?r = map Inr [] @ []"
    by simp
  have decoded: "list_all2 (\<lambda>row vs. ReadFields test_env ?header row ?T = Returns (vs, None)) [] []"
    by simp
  from ReadAll_collects_until_error [OF header rows decoded]
  have "ReadAll test_env ?T ?r = (?r\<lparr>Reader := []\<rparr>, Returns (map Some [], None))"
    by blast
  then show "snd (ReadAll test_env ?T (fst (ReadHeader (NewReader [Inr [''name'', ''age'']]))))
      = Returns ([], None)"
    by (simp add: r)
qed

section \<open>Numeric cells\<close>







section \<open>Empty pieces of a slice cell\<close>

lemma Sscanf_string_word:
  "Sscanf env TString ''a'' = Inr (VString ''a'')"
  by (simp add: Sscanf_def scanOne_def convertString_def isSpace_def)

lemma Sscanf_string_empty:
  "Sscanf env TString [] = Inl EOF"
  by (simp add: Sscanf_def scanOne_def convertString_def)

text \<open>
  C3. The loop over the pieces of a slice cell returns for every error of the scan,
  \<^verbatim>\<open>io.EOF\<close> included, while the default branch turns \<^verbatim>\<open>io.EOF\<close> into the zero value. So
  the cell \<^verbatim>\<open>a;;c\<close> of the field \<^verbatim>\<open>Slice\<close> of \<^verbatim>\<open>SliceTestRecord\<close> (strings, separator
  \<^verbatim>\<open>;\<close>) is not decoded: the empty piece of index 1 makes \<^verbatim>\<open>ReadRecord\<close> return a
  \<^verbatim>\<open>FieldParseError\<close> for \<^verbatim>\<open>slice[1]\<close> with the cause \<^verbatim>\<open>io.EOF\<close>, the field still nil. The
  empty cell of a string field is decoded to the empty string.
\<close>

theorem slice_cell_with_empty_piece_fails:
  "strings_Split ''a;;c'' '';'' = [''a'', [], ''c''] \<and>
   ReadField test_env (SliceTestRecord ! 0) ''a;;c''
     = (VNil, Some (FieldParseError ''slice[1]'' EOF)) \<and>
   snd (ReadRecord test_env SliceTestRecord
      (fst (ReadHeader (NewReader [Inr [''slice''], Inr [''a;;c'']]))))
     = Returns (Some [VNil, VNil, VNil], Some (FieldParseError ''slice[1]'' EOF)) \<and>
   ReadField test_env Person_Name [] = (VString [], None)"
proof (intro conjI)
  show pieces: "strings_Split ''a;;c'' '';'' = [''a'', [], ''c'']"
    by (simp add: strings_Split_def)
  show field: "ReadField test_env (SliceTestRecord ! 0) ''a;;c''
      = (VNil, Some (FieldParseError ''slice[1]'' EOF))"
    by (simp add: ReadField_def SliceTestRecord_def test_env_def tag_simps type_simps
        pieces Sscanf_string_word Sscanf_string_empty FormatUint.simps digitChar_def)
  have column: "isValidCSVField (SliceTestRecord ! 0)"
      "Tag_Get (SliceTestRecord ! 0) csvTag = ''slice''"
    by (simp_all add: SliceTestRecord_def tag_simps)
  have T: "SliceTestRecord = SliceTestRecord ! 0 # tl SliceTestRecord"
    by (simp add: SliceTestRecord_def)
  have "ReadFields test_env (mapHeader [''slice''] 0 Map.empty) [''a;;c'']
        (SliceTestRecord ! 0 # tl SliceTestRecord)
      = Returns ([VNil, VNil, VNil], Some (FieldParseError ''slice[1]'' EOF))"
    by (simp add: column field) (simp add: SliceTestRecord_def new_def)
  with T have "ReadFields test_env (mapHeader [''slice''] 0 Map.empty) [''a;;c''] SliceTestRecord
      = Returns ([VNil, VNil, VNil], Some (FieldParseError ''slice[1]'' EOF))"
    by simp
  then show "snd (ReadRecord test_env SliceTestRecord
      (fst (ReadHeader (NewReader [Inr [''slice''], Inr [''a;;c'']]))))
     = Returns (Some [VNil, VNil, VNil], Some (FieldParseError ''slice[1]'' EOF))"
    by (simp add: ReadRecord_def ReadHeader_def NewReader_def)
  show "ReadField test_env Person_Name [] = (VString [], None)"
    by (simp add: ReadField_def Person_Name_def test_env_def tag_simps type_simps
        Sscanf_string_empty)
qed

section \<open>Writing a value and reading it back\<close>

subsection \<open>Decimal numerals\<close>
























subsection \<open>Scalars under the verb v\<close>












subsection \<open>One field\<close>








subsection \<open>Slices\<close>








subsection \<open>A lossless field, and a record of them\<close>




section \<open>Round trip\<close>





end
